theory Spec2Isabelle
  imports Main "HOL-Library.Word" "HOL-Library.AList" "HOL-Library.Multiset"
    "HOL-Library.Sublist"
begin

unbundle bit_operations_syntax

section \<open>The tree merger of rmlint (src/treemerge.c)\<close>

text \<open>
  The development embeds \<^verbatim>\<open>src/treemerge.c\<close>: the file counter, the directory
  aggregate (\<^verbatim>\<open>RmDirectory\<close>), the merger (\<^verbatim>\<open>rm_tm_feed\<close>, \<^verbatim>\<open>rm_tm_finish\<close>) and the
  extractor (\<^verbatim>\<open>rm_tm_extract\<close>). Queues (\<^verbatim>\<open>GQueue\<close>) are lists, head first, so
  \<^verbatim>\<open>g_queue_push_head\<close> is \<open>#\<close>. Counts and lengths (\<^verbatim>\<open>guint\<close>, \<^verbatim>\<open>guint32\<close>) are
  natural numbers: no count of files comes near \<open>2 ^ 32\<close>. The fingerprint
  (\<^verbatim>\<open>guint64 common_hash\<close>) is a 64-bit word.
\<close>

subsection \<open>Path tries (libart)\<close>

text \<open>
  Modelled from the spec: the path trie \<^verbatim>\<open>art_tree\<close> (\<^verbatim>\<open>libart/art.h\<close>, whose code is
  not among the source files), by the operations that section 4.A of the specification
  gives it: exact lookup, insert or replace, size, and an iteration that a visitor can
  stop. It is a map from byte-string keys to values, here an association list with one
  entry per key: \<^verbatim>\<open>art_insert\<close> replaces the value of a key that is present and adds
  the key otherwise, \<^verbatim>\<open>art_search\<close> returns the value or \<^verbatim>\<open>NULL\<close> (\<open>None\<close>),
  \<^verbatim>\<open>art_size\<close> is the number of keys, and \<^verbatim>\<open>art_iter\<close> calls the callback on every
  entry until one returns a value other than 0, which it then returns. The order of the
  entries stands for nothing: the code depends on no order of the iteration. A path key
  carries its terminating NUL byte in C; the model's key is the path itself.
\<close>

type_synonym ('k, 'v) art_tree = "('k \<times> 'v) list"

definition init_art_tree :: "('k, 'v) art_tree" where
  "init_art_tree = []"

definition art_search :: "('k, 'v) art_tree \<Rightarrow> 'k \<Rightarrow> 'v option" where
  "art_search t key = map_of t key"

definition art_insert :: "('k, 'v) art_tree \<Rightarrow> 'k \<Rightarrow> 'v \<Rightarrow> ('k, 'v) art_tree" where
  "art_insert t key v = AList.update key v t"

definition art_size :: "('k, 'v) art_tree \<Rightarrow> nat" where
  "art_size t = length t"

fun art_iter :: "('k, 'v) art_tree \<Rightarrow> ('s \<Rightarrow> 'k \<Rightarrow> 'v \<Rightarrow> int \<times> 's) \<Rightarrow> 's \<Rightarrow> int \<times> 's" where
  "art_iter [] cb data = (0, data)"
| "art_iter ((key, v) # t) cb data =
     (case cb data key v of
        (r, data') \<Rightarrow> if r \<noteq> 0 then (r, data') else art_iter t cb data')"

text \<open>\<^verbatim>\<open>GPOINTER_TO_UINT\<close> of a count stored as a pointer: \<^verbatim>\<open>NULL\<close> reads as 0.\<close>

definition GPOINTER_TO_UINT :: "nat option \<Rightarrow> nat" where
  "GPOINTER_TO_UINT p = (case p of None \<Rightarrow> 0 | Some n \<Rightarrow> n)"

subsection \<open>Files and directory aggregates\<close>

type_synonym byte = "8 word"

text \<open>
  Modelled from the spec: an \<^verbatim>\<open>RmFile\<close> and its digest (\<^verbatim>\<open>file.h\<close> and the checksum
  code, which are not among the source files). As section 3 of the specification says
  of a file report, the merger reads its path and its digest, a byte array of fixed
  length: \<^verbatim>\<open>rm_digest_steal_buffer\<close> gives the \<^verbatim>\<open>file->digest->bytes\<close> bytes of it.
\<close>

record RmFile =
  path :: string
  digest :: "byte list"

text \<open>
  Every \<^verbatim>\<open>RmDirectory\<close> is allocated by \<^verbatim>\<open>rm_directory_new\<close> and registered at once in
  \<^verbatim>\<open>dir_tree\<close> under its own \<^verbatim>\<open>dirname\<close>, and no entry of \<^verbatim>\<open>dir_tree\<close> is ever replaced
  or removed. A pointer to an \<^verbatim>\<open>RmDirectory\<close> is therefore modelled by that key, the
  directory's path, and \<^verbatim>\<open>dir_tree\<close> is the store the pointers are read and written
  through: the queues \<^verbatim>\<open>valid_dirs\<close>, \<^verbatim>\<open>children\<close> and the queues of the result table
  hold paths, and two occurrences of one path are two pointers to one object.
\<close>

record RmDirectory =
  dirname :: string
  known_files :: "RmFile list"
  children :: "string list"
  common_hash :: "64 word"
  file_count :: nat
  finished :: bool
  hash_trie :: "(byte list, RmFile) art_tree"

record RmTreeMerger =
  dir_tree :: "(string, RmDirectory) art_tree"
  count_tree :: "(string, nat) art_tree"
  result_table :: "(32 word \<times> string \<times> string list) list"
  valid_dirs :: "string list"

subsection \<open>Counting files\<close>

text \<open>
  \<^verbatim>\<open>rm_tm_count_art_callback\<close>: for every index \<open>i\<close> of the path, from the last
  character down to 0, at which a separator stands, the prefix before it (or \<^verbatim>\<open>/\<close>
  when \<open>i = 0\<close>) gets its count raised by one.
\<close>

definition rm_tm_count_step :: "string \<Rightarrow> nat \<Rightarrow> (string, nat) art_tree \<Rightarrow> (string, nat) art_tree" where
  "rm_tm_count_step key i dir_tree' =
     (if key ! i = CHR ''/'' then
        (let p = (if i = 0 then ''/'' else take i key)
         in art_insert dir_tree' p (GPOINTER_TO_UINT (art_search dir_tree' p) + 1))
      else dir_tree')"

definition rm_tm_count_art_callback ::
  "(string, nat) art_tree \<Rightarrow> string \<Rightarrow> unit \<Rightarrow> int \<times> (string, nat) art_tree" where
  "rm_tm_count_art_callback data key v =
     (0, fold (rm_tm_count_step key) (rev [0..<length key]) data)"

text \<open>
  The walker \<^verbatim>\<open>fts(3)\<close> is external. Its behaviour on one run is a parameter: whether
  \<^verbatim>\<open>fts_open\<close> returns a handle, the entries \<^verbatim>\<open>fts_read\<close> yields (kind and path), and
  the return code of \<^verbatim>\<open>fts_close\<close>.
\<close>

datatype fts_info = FTS_F | FTS_D | FTS_OTHER

record fts_run =
  fts_open_ok :: bool
  fts_entries :: "(fts_info \<times> string) list"
  fts_close_rc :: int

definition rm_tm_count_files ::
  "(string, nat) art_tree \<Rightarrow> string list \<Rightarrow> fts_run \<Rightarrow> bool \<times> (string, nat) art_tree" where
  "rm_tm_count_files dir_tree' files fts =
     (if files = [] then (False, dir_tree')
      else if \<not> fts_open_ok fts then (False, dir_tree')
      else
        (let file_tree =
               fold (\<lambda>(info, p) t. if info = FTS_F then art_insert t p () else t)
                 (fts_entries fts) init_art_tree
         in if fts_close_rc fts \<noteq> 0 then (False, dir_tree')
            else (True, snd (art_iter file_tree rm_tm_count_art_callback dir_tree'))))"

subsection \<open>Directory aggregates\<close>

definition rm_directory_new :: "string \<Rightarrow> RmDirectory" where
  "rm_directory_new dirname' =
     \<lparr>dirname = dirname', known_files = [], children = [], common_hash = 0,
      file_count = 0, finished = False, hash_trie = init_art_tree\<rparr>"

text \<open>
  \<^verbatim>\<open>*((guint64 *)file_digest)\<close>: the first eight bytes of the digest, read as one
  machine word (least significant byte first, as on the hosts rmlint is built for). A
  digest has at least eight bytes; the C code reads past the end of a shorter one.
\<close>

primrec le_word :: "byte list \<Rightarrow> 64 word" where
  "le_word [] = 0"
| "le_word (b # bs) = ucast b + 256 * le_word bs"

definition digest_word :: "byte list \<Rightarrow> 64 word" where
  "digest_word file_digest = le_word (take 8 file_digest)"

definition rm_directory_equal_iter ::
  "(byte list, RmFile) art_tree \<Rightarrow> byte list \<Rightarrow> RmFile \<Rightarrow> int \<times> (byte list, RmFile) art_tree" where
  "rm_directory_equal_iter other_hash_trie key v =
     ((case art_search other_hash_trie key of None \<Rightarrow> 1 | Some f \<Rightarrow> 0), other_hash_trie)"

definition rm_directory_equal :: "RmDirectory \<Rightarrow> RmDirectory \<Rightarrow> bool" where
  "rm_directory_equal d1 d2 =
     (if common_hash d1 \<noteq> common_hash d2 then False
      else if art_size (hash_trie d1) \<noteq> art_size (hash_trie d2) then False
      else fst (art_iter (hash_trie d1) rm_directory_equal_iter (hash_trie d2)) = 0)"

definition rm_directory_hash :: "RmDirectory \<Rightarrow> 32 word" where
  "rm_directory_hash d = ucast (common_hash d)"

definition rm_directory_add :: "RmDirectory \<Rightarrow> RmFile \<Rightarrow> RmDirectory" where
  "rm_directory_add directory file =
     directory
       \<lparr>known_files := file # known_files directory,
        common_hash := common_hash directory XOR digest_word (digest file),
        hash_trie := art_insert (hash_trie directory) (digest file) file\<rparr>"

subsection \<open>The merger\<close>

text \<open>
  GLib is a library outside the repository; its functions are modelled by what its
  documentation says of them.
  \<^verbatim>\<open>g_path_get_dirname\<close> of GLib, on a host whose separator is \<^verbatim>\<open>/\<close>: a name without
  a separator has the directory \<^verbatim>\<open>.\<close>; otherwise the name is cut before its last
  separator and the separators that end the rest are dropped, but never the first
  character.
\<close>

definition g_path_get_dirname :: "string \<Rightarrow> string" where
  "g_path_get_dirname file_name =
     (if CHR ''/'' \<notin> set file_name then ''.''
      else
        (let base = rev (dropWhile (\<lambda>c. c = CHR ''/'')
                      (dropWhile (\<lambda>c. c \<noteq> CHR ''/'') (rev file_name)))
         in if base = [] then ''/'' else base))"

text \<open>
  Reading and writing an \<^verbatim>\<open>RmDirectory\<close> through its pointer. For a path that is not
  registered \<open>get_dir\<close> gives the directory that \<^verbatim>\<open>rm_directory_new\<close> would make for
  it; no pointer that the merger holds is such a path (lemma
  \<open>pointers_valid_reachable\<close> below).
\<close>

definition get_dir :: "RmTreeMerger \<Rightarrow> string \<Rightarrow> RmDirectory" where
  "get_dir self p =
     (case art_search (dir_tree self) p of Some d \<Rightarrow> d | None \<Rightarrow> rm_directory_new p)"

definition set_dir :: "RmTreeMerger \<Rightarrow> string \<Rightarrow> RmDirectory \<Rightarrow> RmTreeMerger" where
  "set_dir self p d = self\<lparr>dir_tree := art_insert (dir_tree self) p d\<rparr>"

definition rm_tm_new :: "string list \<Rightarrow> fts_run \<Rightarrow> RmTreeMerger option" where
  "rm_tm_new paths fts =
     Some \<lparr>dir_tree = init_art_tree,
           count_tree = snd (rm_tm_count_files init_art_tree paths fts),
           result_table = [],
           valid_dirs = []\<rparr>"

text \<open>
  The result table is a \<^verbatim>\<open>GHashTable\<close> from a key directory to a queue of
  directories, with \<^verbatim>\<open>rm_directory_hash\<close> and \<^verbatim>\<open>rm_directory_equal\<close> as its hash and
  equality. A node of the table holds the hash that the key had when it was inserted,
  the key and the queue; the table is modelled by its nodes in the order of their
  insertion. GLib keeps the hash values 0 and 1 for empty and deleted slots and takes 2
  for the hash of a key in their place (\<open>g_hash_real\<close>). \<^verbatim>\<open>g_hash_table_lookup\<close>
  computes the hash of the directory looked up and finds a node whose stored hash is that
  hash and whose key is then equal to the directory by \<^verbatim>\<open>rm_directory_equal\<close>, called
  with the node's key first; a key that has got another file since its insertion is
  still found by its old hash only. Where several nodes match, the model takes the one
  inserted first.
\<close>

definition g_hash_real :: "32 word \<Rightarrow> 32 word" where
  "g_hash_real hash_value = (if hash_value < 2 then 2 else hash_value)"

definition node_matches :: "RmTreeMerger \<Rightarrow> string \<Rightarrow> 32 word \<Rightarrow> string \<Rightarrow> bool" where
  "node_matches self directory node_hash node_key =
     (if node_hash = g_hash_real (rm_directory_hash (get_dir self directory))
      then rm_directory_equal (get_dir self node_key) (get_dir self directory)
      else False)"

text \<open>
  \<open>push_bucket\<close> is the body of \<^verbatim>\<open>rm_tm_insert_dir\<close>: look the directory up, insert
  it with a new empty queue (and with the hash it has now) when it is not found, push
  it on the head of the queue.
\<close>

fun push_bucket ::
  "(32 word \<Rightarrow> string \<Rightarrow> bool) \<Rightarrow> 32 word \<Rightarrow> string \<Rightarrow>
   (32 word \<times> string \<times> string list) list \<Rightarrow> (32 word \<times> string \<times> string list) list" where
  "push_bucket matches hash_value directory [] = [(hash_value, directory, [directory])]"
| "push_bucket matches hash_value directory ((node_hash, key, dir_queue) # t) =
     (if matches node_hash key then (node_hash, key, directory # dir_queue) # t
      else (node_hash, key, dir_queue) # push_bucket matches hash_value directory t)"

definition rm_tm_insert_dir :: "RmTreeMerger \<Rightarrow> string \<Rightarrow> RmTreeMerger" where
  "rm_tm_insert_dir self directory =
     self\<lparr>result_table :=
       push_bucket (node_matches self directory)
         (g_hash_real (rm_directory_hash (get_dir self directory)))
         directory (result_table self)\<rparr>"

text \<open>The buckets of the result table: the key and the queue of every node.\<close>

definition buckets :: "RmTreeMerger \<Rightarrow> (string \<times> string list) list" where
  "buckets self = map snd (result_table self)"

definition rm_tm_feed :: "RmTreeMerger \<Rightarrow> RmFile \<Rightarrow> RmTreeMerger" where
  "rm_tm_feed self file =
     (let dir = g_path_get_dirname (path file);
          self1 =
            (case art_search (dir_tree self) dir of
               Some d \<Rightarrow> self
             | None \<Rightarrow>
                 self\<lparr>dir_tree := art_insert (dir_tree self) dir
                        ((rm_directory_new dir)
                           \<lparr>file_count := GPOINTER_TO_UINT (art_search (count_tree self) dir)\<rparr>),
                      valid_dirs := dir # valid_dirs self\<rparr>);
          self2 = set_dir self1 dir (rm_directory_add (get_dir self1 dir) file)
      in if length (known_files (get_dir self2 dir)) = file_count (get_dir self2 dir)
         then rm_tm_insert_dir self2 dir
         else self2)"

text \<open>
  The loop of lines 340 to 342: every file of the list is added to the directory that
  \<^verbatim>\<open>parent\<close> points to. The list is the child's \<^verbatim>\<open>known_files\<close> as it stands when
  the loop starts: the loop walks from the old head on, and a push on the head (when
  parent and child are one object) does not lengthen the walk.
\<close>

definition rm_tm_copy_files :: "string \<Rightarrow> RmFile list \<Rightarrow> RmTreeMerger \<Rightarrow> RmTreeMerger" where
  "rm_tm_copy_files parent_dir files self =
     fold (\<lambda>file s. set_dir s parent_dir (rm_directory_add (get_dir s parent_dir) file))
       files self"

text \<open>
  One round of the first loop of \<^verbatim>\<open>rm_tm_finish\<close> (lines 314 to 345), for one
  \<^verbatim>\<open>directory\<close> of \<^verbatim>\<open>valid_dirs\<close>, with \<^verbatim>\<open>new_dirs\<close> carried along.
\<close>

definition rm_tm_level_up ::
  "string \<Rightarrow> RmTreeMerger \<times> string list \<Rightarrow> RmTreeMerger \<times> string list" where
  "rm_tm_level_up directory = (\<lambda>(self, new_dirs).
     (let parent_dir = g_path_get_dirname (dirname (get_dir self directory));
          (self1, new_dirs1) =
            (case art_search (dir_tree self) parent_dir of
               Some parent \<Rightarrow> (self, new_dirs)
             | None \<Rightarrow>
                 (let s = set_dir self parent_dir (rm_directory_new parent_dir);
                      s' = set_dir s directory
                             ((get_dir s directory)
                                \<lparr>file_count :=
                                   GPOINTER_TO_UINT (art_search (count_tree s) parent_dir)\<rparr>)
                  in (s', directory # new_dirs)));
          self2 = rm_tm_copy_files parent_dir (known_files (get_dir self1 directory)) self1;
          self3 =
            set_dir self2 parent_dir
              ((get_dir self2 parent_dir)
                 \<lparr>children := directory # children (get_dir self2 parent_dir)\<rparr>)
      in (self3, new_dirs1)))"

text \<open>One round of the second loop of \<^verbatim>\<open>rm_tm_finish\<close> (lines 351 to 357).\<close>

definition rm_tm_keep :: "string \<Rightarrow> RmTreeMerger \<Rightarrow> RmTreeMerger" where
  "rm_tm_keep directory self =
     (if length (known_files (get_dir self directory)) = file_count (get_dir self directory)
      then rm_tm_insert_dir (self\<lparr>valid_dirs := directory # valid_dirs self\<rparr>) directory
      else self)"

text \<open>One pass of the \<^verbatim>\<open>while\<close> loop of \<^verbatim>\<open>rm_tm_finish\<close>.\<close>

definition rm_tm_finish_pass :: "RmTreeMerger \<Rightarrow> RmTreeMerger" where
  "rm_tm_finish_pass self =
     (case fold rm_tm_level_up (valid_dirs self) (self, []) of
        (self1, new_dirs) \<Rightarrow> fold rm_tm_keep new_dirs (self1\<lparr>valid_dirs := []\<rparr>))"

text \<open>
  The \<^verbatim>\<open>while\<close> loop of \<^verbatim>\<open>rm_tm_finish\<close>; that it ends is proved below.
\<close>

function rm_tm_finish_loop :: "RmTreeMerger \<Rightarrow> RmTreeMerger" where
  "rm_tm_finish_loop self =
     (if valid_dirs self = [] then self else rm_tm_finish_loop (rm_tm_finish_pass self))"
  by pat_completeness auto

text \<open>
  The parent path that \<^verbatim>\<open>rm_tm_finish\<close> computes for a directory, whether a path has
  an aggregate in \<^verbatim>\<open>dir_tree\<close>, and whether every directory of \<^verbatim>\<open>valid_dirs\<close> has its
  parent there.
\<close>

definition parent_of :: "RmTreeMerger \<Rightarrow> string \<Rightarrow> string" where
  "parent_of self d = g_path_get_dirname (dirname (get_dir self d))"

definition registered :: "RmTreeMerger \<Rightarrow> string \<Rightarrow> bool" where
  "registered self p = (art_search (dir_tree self) p \<noteq> None)"

definition parents_registered :: "RmTreeMerger \<Rightarrow> bool" where
  "parents_registered self = list_all (\<lambda>d. registered self (parent_of self d)) (valid_dirs self)"

text \<open>
  Every pointer that the merger holds (in \<^verbatim>\<open>valid_dirs\<close>, in the result table, among
  the children of a directory) points to a registered directory, and every directory is
  registered under its own name.
\<close>

definition pointers_valid :: "RmTreeMerger \<Rightarrow> bool" where
  "pointers_valid self \<longleftrightarrow>
     list_all (registered self) (valid_dirs self) \<and>
     list_all (\<lambda>(node_hash, key, dir_queue).
                 registered self key \<and> list_all (registered self) dir_queue)
       (result_table self) \<and>
     list_all (\<lambda>(key, d). dirname d = key \<and> list_all (registered self) (children d))
       (dir_tree self)"

subsection \<open>The extractor\<close>

text \<open>
  \<^verbatim>\<open>rm_tm_mark_finished\<close> sets the flag of a directory and calls itself on each of
  its children. The model carries the calls still to be made as a list, the next one
  first: a call on \<open>directory\<close> sets its flag and puts its children before the rest.
  The recursion of the C function does not end when a directory is among its own
  descendants (the root is, once it has been levelled up: its parent is itself); the
  model's value is then \<open>None\<close>.
\<close>

partial_function (option) rm_tm_mark_finished :: "RmTreeMerger \<Rightarrow> string list \<Rightarrow> RmTreeMerger option" where
  "rm_tm_mark_finished self todo =
     (case todo of
        [] \<Rightarrow> Some self
      | directory # rest \<Rightarrow>
          rm_tm_mark_finished
            (set_dir self directory ((get_dir self directory)\<lparr>finished := True\<rparr>))
            (children (get_dir self directory) @ rest))"

declare rm_tm_mark_finished.simps [code]

text \<open>
  \<^verbatim>\<open>rm_tm_sort_paths\<close>: the loop runs while both names have a character, so it
  reads as many characters of each name as the shorter one has.
\<close>

fun depth_balance :: "string \<Rightarrow> string \<Rightarrow> int \<Rightarrow> int" where
  "depth_balance (a # as) (b # bs) acc =
     depth_balance as bs (acc + of_bool (a = CHR ''/'') - of_bool (b = CHR ''/''))"
| "depth_balance as bs acc = acc"

definition CLAMP :: "int \<Rightarrow> int \<Rightarrow> int \<Rightarrow> int" where
  "CLAMP x low high = (if x > high then high else if x < low then low else x)"

definition rm_tm_sort_paths :: "RmDirectory \<Rightarrow> RmDirectory \<Rightarrow> int" where
  "rm_tm_sort_paths da db = CLAMP (depth_balance (dirname da) (dirname db) 0) (- 1) 1"

text \<open>
  \<^verbatim>\<open>g_queue_sort\<close> of GLib is the merge sort of \<^verbatim>\<open>g_list_sort_with_data\<close>: the list
  is cut after its first \<open>n div 2\<close> elements, both parts are sorted, and the merge takes
  the element of the first part unless the comparison is positive.
\<close>

fun g_list_sort_merge :: "('a \<Rightarrow> 'a \<Rightarrow> int) \<Rightarrow> 'a list \<Rightarrow> 'a list \<Rightarrow> 'a list" where
  "g_list_sort_merge compare_func [] l2 = l2"
| "g_list_sort_merge compare_func l1 [] = l1"
| "g_list_sort_merge compare_func (x # l1) (y # l2) =
     (if compare_func x y \<le> 0 then x # g_list_sort_merge compare_func l1 (y # l2)
      else y # g_list_sort_merge compare_func (x # l1) l2)"

function g_list_sort_real :: "('a \<Rightarrow> 'a \<Rightarrow> int) \<Rightarrow> 'a list \<Rightarrow> 'a list" where
  "g_list_sort_real compare_func list =
     (if length list \<le> 1 then list
      else g_list_sort_merge compare_func
             (g_list_sort_real compare_func (take (length list div 2) list))
             (g_list_sort_real compare_func (drop (length list div 2) list)))"
  by pat_completeness auto
termination
  by (relation "measure (\<lambda>(compare_func, list). length list)") auto

definition g_queue_sort :: "('a \<Rightarrow> 'a \<Rightarrow> int) \<Rightarrow> 'a list \<Rightarrow> 'a list" where
  "g_queue_sort compare_func queue = g_list_sort_real compare_func queue"

text \<open>
  What \<^verbatim>\<open>rm_tm_extract\<close> prints after its heading: a line with the fingerprint and the
  path of a directory, or the line \<^verbatim>\<open>--\<close> that ends a bucket.
\<close>

datatype report = Line "64 word" string | Separator

text \<open>The loop of lines 296 to 302 over one sorted queue.\<close>

fun rm_tm_extract_queue ::
  "string list \<Rightarrow> RmTreeMerger \<times> report list \<Rightarrow> (RmTreeMerger \<times> report list) option" where
  "rm_tm_extract_queue [] (self, out) = Some (self, out)"
| "rm_tm_extract_queue (directory # rest) (self, out) =
     (if finished (get_dir self directory) = False then
        (case rm_tm_mark_finished self [directory] of
           None \<Rightarrow> None
         | Some self' \<Rightarrow>
             rm_tm_extract_queue rest
               (self', out @ [Line (common_hash (get_dir self' directory))
                                   (dirname (get_dir self' directory))]))
      else rm_tm_extract_queue rest (self, out))"

text \<open>
  The loop of lines 289 to 304 over the buckets of the result table. GLib does not
  promise the order in which \<^verbatim>\<open>g_hash_table_iter_next\<close> yields the buckets, so the
  order is a parameter: the list of the positions of the buckets, the first to be
  visited first. The queue of a bucket is sorted in place.
\<close>

fun rm_tm_extract_buckets ::
  "nat list \<Rightarrow> RmTreeMerger \<times> report list \<Rightarrow> (RmTreeMerger \<times> report list) option" where
  "rm_tm_extract_buckets [] (self, out) = Some (self, out)"
| "rm_tm_extract_buckets (i # rest) (self, out) =
     (if i < length (result_table self) then
        (case result_table self ! i of
           (node_hash, key, dir_list) \<Rightarrow>
             (let sorted = g_queue_sort
                             (\<lambda>da db. rm_tm_sort_paths (get_dir self da) (get_dir self db))
                             dir_list;
                  self1 = self\<lparr>result_table :=
                            (result_table self)[i := (node_hash, key, sorted)]\<rparr>
              in case rm_tm_extract_queue sorted (self1, out) of
                   None \<Rightarrow> None
                 | Some (self2, out2) \<Rightarrow>
                     rm_tm_extract_buckets rest (self2, out2 @ [Separator])))
      else rm_tm_extract_buckets rest (self, out))"

definition rm_tm_extract :: "nat list \<Rightarrow> RmTreeMerger \<Rightarrow> (RmTreeMerger \<times> report list) option" where
  "rm_tm_extract order self = rm_tm_extract_buckets order (self, [])"

definition rm_tm_finish :: "nat list \<Rightarrow> RmTreeMerger \<Rightarrow> (RmTreeMerger \<times> report list) option" where
  "rm_tm_finish order self = rm_tm_extract order (rm_tm_finish_loop self)"

subsection \<open>Notions of the specification and scenarios\<close>

text \<open>
  The depth of a path is the number of separators in it. \<open>xor_digests\<close> is the XOR
  of the first words of the digests of a list of files.
\<close>

definition path_depth :: "string \<Rightarrow> nat" where
  "path_depth p = length (filter (\<lambda>c. c = CHR ''/'') p)"

definition xor_digests :: "RmFile list \<Rightarrow> 64 word" where
  "xor_digests fs = foldr (\<lambda>f h. digest_word (digest f) XOR h) fs 0"

text \<open>
  The merger that \<^verbatim>\<open>rm_tm_new\<close> returns when the counter has produced \<open>counts\<close>.
\<close>

definition new_merger :: "(string, nat) art_tree \<Rightarrow> RmTreeMerger" where
  "new_merger counts =
     \<lparr>dir_tree = init_art_tree, count_tree = counts, result_table = [], valid_dirs = []\<rparr>"

definition digest1 :: "byte list" where
  "digest1 = [1, 0, 0, 0, 0, 0, 0, 0]"

definition digest2 :: "byte list" where
  "digest2 = [2, 0, 0, 0, 0, 0, 0, 0]"

definition digest3 :: "byte list" where
  "digest3 = [4, 0, 0, 0, 0, 0, 0, 0]"

text \<open>The cascade scenario of the specification (scenario 3).\<close>

definition cascade_counts :: "(string, nat) art_tree" where
  "cascade_counts =
     [(''/r/a'', 1), (''/r/b'', 1), (''/r'', 2), (''/s/a'', 1), (''/s/b'', 1), (''/s'', 2)]"

definition cascade_feeds :: "RmFile list" where
  "cascade_feeds =
     [\<lparr>path = ''/r/a/f'', digest = digest1\<rparr>, \<lparr>path = ''/r/b/g'', digest = digest2\<rparr>,
      \<lparr>path = ''/s/a/f'', digest = digest1\<rparr>, \<lparr>path = ''/s/b/g'', digest = digest2\<rparr>]"

definition cascade_fed :: RmTreeMerger where
  "cascade_fed = foldl rm_tm_feed (new_merger cascade_counts) cascade_feeds"

text \<open>One file \<^verbatim>\<open>/a/x\<close>, the only file under the root.\<close>

definition single_counts :: "(string, nat) art_tree" where
  "single_counts = [(''/a'', 1), (''/'', 1)]"

definition single_fed :: RmTreeMerger where
  "single_fed = rm_tm_feed (new_merger single_counts) \<lparr>path = ''/a/x'', digest = digest1\<rparr>"

text \<open>Two files, \<^verbatim>\<open>/t/a/x\<close> and \<^verbatim>\<open>/u/y\<close>, with different contents.\<close>

definition nested_counts :: "(string, nat) art_tree" where
  "nested_counts = [(''/t/a'', 1), (''/t'', 1), (''/'', 2), (''/u'', 1)]"

definition nested_fed :: RmTreeMerger where
  "nested_fed =
     foldl rm_tm_feed (new_merger nested_counts)
       [\<lparr>path = ''/t/a/x'', digest = digest1\<rparr>, \<lparr>path = ''/u/y'', digest = digest2\<rparr>]"

text \<open>The twin scenario of the specification (scenario 1).\<close>

definition twin_counts :: "(string, nat) art_tree" where
  "twin_counts = [(''/a'', 2), (''/'', 4), (''/b'', 2)]"



text \<open>Two equal directories whose paths differ in length and in depth.\<close>

definition uneven_counts :: "(string, nat) art_tree" where
  "uneven_counts =
     [(''/a/b'', 1), (''/a'', 1), (''/'', 2), (''/abc/d/e'', 1), (''/abc/d'', 1), (''/abc'', 1)]"


text \<open>
  Two files with different contents, \<^verbatim>\<open>/a/x\<close> and \<^verbatim>\<open>/b/y\<close>, after the loop of
  \<^verbatim>\<open>rm_tm_finish\<close>.
\<close>

definition pair_counts :: "(string, nat) art_tree" where
  "pair_counts = [(''/a'', 1), (''/'', 2), (''/b'', 1)]"

definition pair_done :: RmTreeMerger where
  "pair_done =
     rm_tm_finish_loop
       (foldl rm_tm_feed (new_merger pair_counts)
          [\<lparr>path = ''/a/x'', digest = digest1\<rparr>, \<lparr>path = ''/b/y'', digest = digest2\<rparr>])"

text \<open>
  Four directories with one file each, all of the same contents; the paths have six
  characters and the depths 1, 3, 2 and 2, in the order of the feeds.
\<close>

definition quad_counts :: "(string, nat) art_tree" where
  "quad_counts =
     [(''/a/b/c'', 1), (''/a/b'', 1), (''/a'', 1), (''/'', 4), (''/ab/cd'', 1), (''/ab'', 1),
      (''/abcde'', 1), (''/xy/zw'', 1), (''/xy'', 1)]"



text \<open>
  A key of the result table that gets a file after its insertion: \<^verbatim>\<open>/r\<close> is complete
  with its first file (the count tree, as a caller may have it from another scan, has 1
  for it) and gets a second one.
\<close>

definition stale_fed :: RmTreeMerger where
  "stale_fed =
     foldl rm_tm_feed (new_merger [(''/r'', 1), (''/s'', 2)])
       [\<lparr>path = ''/r/x'', digest = digest1\<rparr>, \<lparr>path = ''/r/y'', digest = digest2\<rparr>,
        \<lparr>path = ''/s/x'', digest = digest1\<rparr>, \<lparr>path = ''/s/y'', digest = digest2\<rparr>]"


text \<open>Three files in a chain of directories: \<^verbatim>\<open>/r/x\<close>, \<^verbatim>\<open>/r/a/f\<close>, \<^verbatim>\<open>/r/a/b/g\<close>.\<close>

definition chain_counts :: "(string, nat) art_tree" where
  "chain_counts = [(''/r/a/b'', 1), (''/r/a'', 2), (''/r'', 3), (''/'', 3)]"

definition chain_feeds :: "RmFile list" where
  "chain_feeds =
     [\<lparr>path = ''/r/x'', digest = digest1\<rparr>, \<lparr>path = ''/r/a/f'', digest = digest2\<rparr>,
      \<lparr>path = ''/r/a/b/g'', digest = digest3\<rparr>]"

text \<open>
  What the claims read of the aggregate registered for a path: its fingerprint, the
  number of its files, its expected count and the set of its digests. \<open>feed_summary\<close>
  is the effect of feeding one file on these.
\<close>

definition dir_summary ::
  "RmTreeMerger \<Rightarrow> string \<Rightarrow> (64 word \<times> nat \<times> nat \<times> byte list set) option" where
  "dir_summary self p =
     map_option (\<lambda>d. (common_hash d, length (known_files d), file_count d, fst ` set (hash_trie d)))
       (art_search (dir_tree self) p)"

definition feed_summary ::
  "(string, nat) art_tree \<Rightarrow> RmFile \<Rightarrow>
   (string \<Rightarrow> (64 word \<times> nat \<times> nat \<times> byte list set) option) \<Rightarrow>
   (string \<Rightarrow> (64 word \<times> nat \<times> nat \<times> byte list set) option)" where
  "feed_summary counts file m =
     m(g_path_get_dirname (path file) \<mapsto>
        (case m (g_path_get_dirname (path file)) of
           None \<Rightarrow> (digest_word (digest file), 1,
                     GPOINTER_TO_UINT (art_search counts (g_path_get_dirname (path file))),
                     {digest file})
         | Some (h, n, c, ds) \<Rightarrow> (h XOR digest_word (digest file), Suc n, c, insert (digest file) ds)))"

section \<open>Properties\<close>

subsection \<open>The loop of the finish operation terminates\<close>

text \<open>
  A pass registers the parent of every directory of \<^verbatim>\<open>valid_dirs\<close>, and only a
  directory whose parent was not registered enters \<^verbatim>\<open>new_dirs\<close>. The directories that
  a pass keeps are among those it started with, so the pass after it finds every parent
  registered and keeps nothing.
\<close>

lemma art_search_insert:
  "art_search (art_insert t k v) k' = (if k' = k then Some v else art_search t k')"
  by (simp add: art_search_def art_insert_def update_conv')

lemma get_dir_set_dir:
  "get_dir (set_dir self p d) q = (if q = p then d else get_dir self q)"
  by (simp add: get_dir_def set_dir_def art_search_insert)

lemma dir_tree_set_dir:
  "art_search (dir_tree (set_dir self p d)) q = (if q = p then Some d else art_search (dir_tree self) q)"
  by (simp add: set_dir_def art_search_insert)

lemma valid_dirs_set_dir: "valid_dirs (set_dir self p d) = valid_dirs self"
  and count_tree_set_dir: "count_tree (set_dir self p d) = count_tree self"
  and result_table_set_dir: "result_table (set_dir self p d) = result_table self"
  by (simp_all add: set_dir_def)

lemma dirname_get_dir_absent:
  "art_search (dir_tree self) p = None \<Longrightarrow> dirname (get_dir self p) = p"
  by (simp add: get_dir_def rm_directory_new_def)

lemma copy_files_dirname:
  "dirname (get_dir (rm_tm_copy_files p fs self) x) = dirname (get_dir self x)"
  by (induction fs arbitrary: self) (simp_all add: rm_tm_copy_files_def get_dir_set_dir rm_directory_add_def)

lemma registered_set_dir: "registered (set_dir self p d) q = (q = p \<or> registered self q)"
  by (simp add: registered_def dir_tree_set_dir)

lemma copy_files_reg:
  "registered (rm_tm_copy_files p fs self) q = (registered self q \<or> (fs \<noteq> [] \<and> q = p))"
  by (induction fs arbitrary: self) (auto simp: rm_tm_copy_files_def registered_set_dir)

lemma level_up_dirname:
  "dirname (get_dir (fst (rm_tm_level_up d (self, nd))) x) = dirname (get_dir self x)"
  by (auto simp: rm_tm_level_up_def Let_def get_dir_set_dir copy_files_dirname
      rm_directory_new_def dirname_get_dir_absent split: option.splits)

lemma level_up_registered:
  "registered self q \<or> q = parent_of self d \<Longrightarrow> registered (fst (rm_tm_level_up d (self, nd))) q"
  by (cases "art_search (dir_tree self) (parent_of self d)")
     (auto simp: rm_tm_level_up_def Let_def parent_of_def registered_set_dir copy_files_reg
        registered_def [of self])

lemma level_up_reg:
  "registered self q \<Longrightarrow> registered (fst (rm_tm_level_up d (self, nd))) q"
  by (simp add: level_up_registered)

lemma level_up_parent_reg:
  "registered (fst (rm_tm_level_up d (self, nd))) (parent_of self d)"
  by (simp add: level_up_registered)

lemma level_up_new_dirs:
  "snd (rm_tm_level_up d (self, nd)) = (if registered self (parent_of self d) then nd else d # nd)"
  by (auto simp: registered_def parent_of_def rm_tm_level_up_def Let_def split: option.splits)

lemma parent_of_level_up:
  "parent_of (fst (rm_tm_level_up d (self, nd))) x = parent_of self x"
  by (simp add: parent_of_def level_up_dirname)

lemma fold_level_up:
  "fold rm_tm_level_up ds (self, nd) = (self', nd') \<Longrightarrow>
     (\<forall>x. parent_of self' x = parent_of self x) \<and>
     (\<forall>q. registered self q \<longrightarrow> registered self' q) \<and>
     (\<forall>d \<in> set ds. registered self' (parent_of self d)) \<and>
     set nd' \<subseteq> set ds \<union> set nd \<and>
     ((\<forall>d \<in> set ds. registered self (parent_of self d)) \<longrightarrow> nd' = nd)"
proof (induction ds arbitrary: self nd)
  case Nil
  then show ?case by simp
next
  case (Cons d ds)
  obtain s1 n1 where step: "rm_tm_level_up d (self, nd) = (s1, n1)"
    by (cases "rm_tm_level_up d (self, nd)")
  have par: "\<And>x. parent_of s1 x = parent_of self x"
    using parent_of_level_up [of d self nd] step by simp
  have reg: "\<And>q. registered self q \<Longrightarrow> registered s1 q"
    using level_up_reg [of self _ d nd] step by simp
  have preg: "registered s1 (parent_of self d)"
    using level_up_parent_reg [of d self nd] step by simp
  have n1: "n1 = (if registered self (parent_of self d) then nd else d # nd)"
    using level_up_new_dirs [of d self nd] step by simp
  from Cons.prems step have "fold rm_tm_level_up ds (s1, n1) = (self', nd')" by simp
  from Cons.IH [OF this] have ih:
    "\<forall>x. parent_of self' x = parent_of s1 x"
    "\<forall>q. registered s1 q \<longrightarrow> registered self' q"
    "\<forall>d \<in> set ds. registered self' (parent_of s1 d)"
    "set nd' \<subseteq> set ds \<union> set n1"
    "(\<forall>d \<in> set ds. registered s1 (parent_of s1 d)) \<longrightarrow> nd' = n1"
    by simp_all
  show ?case
  proof (intro conjI)
    show "\<forall>x. parent_of self' x = parent_of self x" using ih(1) par by simp
    show "\<forall>q. registered self q \<longrightarrow> registered self' q" using ih(2) reg by blast
    show "\<forall>e \<in> set (d # ds). registered self' (parent_of self e)"
      using ih(2,3) preg par by auto
    show "set nd' \<subseteq> set (d # ds) \<union> set nd" using ih(4) n1 by (auto split: if_splits)
    show "(\<forall>e \<in> set (d # ds). registered self (parent_of self e)) \<longrightarrow> nd' = nd"
      using ih(5) n1 reg par by auto
  qed
qed

lemma insert_dir_fields:
  "dir_tree (rm_tm_insert_dir self d) = dir_tree self"
  "valid_dirs (rm_tm_insert_dir self d) = valid_dirs self"
  by (simp_all add: rm_tm_insert_dir_def)

lemma keep_fields:
  "dir_tree (rm_tm_keep d self) = dir_tree self"
  "set (valid_dirs (rm_tm_keep d self)) \<subseteq> insert d (set (valid_dirs self))"
  by (auto simp: rm_tm_keep_def insert_dir_fields)

lemma fold_keep_fields:
  "dir_tree (fold rm_tm_keep nd self) = dir_tree self \<and>
   set (valid_dirs (fold rm_tm_keep nd self)) \<subseteq> set nd \<union> set (valid_dirs self)"
proof (induction nd arbitrary: self)
  case Nil
  then show ?case by simp
next
  case (Cons d nd)
  show ?case using Cons.IH [of "rm_tm_keep d self"] keep_fields [of d self] by auto
qed


lemma registered_cong: "dir_tree a = dir_tree b \<Longrightarrow> registered a = registered b"
  by (auto simp: registered_def fun_eq_iff)

lemma parent_of_cong: "dir_tree a = dir_tree b \<Longrightarrow> parent_of a = parent_of b"
  by (auto simp: parent_of_def get_dir_def fun_eq_iff)

lemma finish_pass_parents_registered: "parents_registered (rm_tm_finish_pass self)"
proof -
  obtain s1 nd where f: "fold rm_tm_level_up (valid_dirs self) (self, []) = (s1, nd)"
    by (cases "fold rm_tm_level_up (valid_dirs self) (self, [])")
  let ?s2 = "fold rm_tm_keep nd (s1\<lparr>valid_dirs := []\<rparr>)"
  have pass: "rm_tm_finish_pass self = ?s2" by (simp add: rm_tm_finish_pass_def f)
  from fold_level_up [OF f] have
    par: "\<forall>x. parent_of s1 x = parent_of self x" and
    preg: "\<forall>d \<in> set (valid_dirs self). registered s1 (parent_of self d)" and
    sub: "set nd \<subseteq> set (valid_dirs self)"
    by simp_all
  have dt: "dir_tree ?s2 = dir_tree s1"
    and vd: "set (valid_dirs ?s2) \<subseteq> set nd"
    using fold_keep_fields [of nd "s1\<lparr>valid_dirs := []\<rparr>"] by simp_all
  have "registered ?s2 = registered s1" "parent_of ?s2 = parent_of s1"
    using dt by (rule registered_cong, rule parent_of_cong)
  then show ?thesis
    using par preg sub vd by (auto simp: pass parents_registered_def list_all_iff)
qed

lemma finish_pass_drains:
  assumes "parents_registered self"
  shows "valid_dirs (rm_tm_finish_pass self) = []"
proof -
  obtain s1 nd where f: "fold rm_tm_level_up (valid_dirs self) (self, []) = (s1, nd)"
    by (cases "fold rm_tm_level_up (valid_dirs self) (self, [])")
  from fold_level_up [OF f] assms have "nd = []"
    by (simp add: parents_registered_def list_all_iff)
  then show ?thesis by (simp add: rm_tm_finish_pass_def f)
qed

termination rm_tm_finish_loop
proof (relation "measure (\<lambda>self. if valid_dirs self = [] then 0
                                    else if parents_registered self then 1 else 2)")
  show "wf (measure (\<lambda>self. if valid_dirs self = [] then 0
                                    else if parents_registered self then 1 else (2::nat)))"
    by simp
next
  fix self :: RmTreeMerger
  assume "valid_dirs self \<noteq> []"
  then show "(rm_tm_finish_pass self, self) \<in> measure (\<lambda>self. if valid_dirs self = [] then 0
                                    else if parents_registered self then 1 else 2)"
    using finish_pass_parents_registered [of self] finish_pass_drains [of self]
    by auto
qed

declare rm_tm_finish_loop.simps [simp del]

declare g_list_sort_real.simps [simp del]

lemma finish_loop_two_passes:
  "rm_tm_finish_loop self =
     (if valid_dirs self = [] then self
      else if valid_dirs (rm_tm_finish_pass self) = [] then rm_tm_finish_pass self
      else rm_tm_finish_pass (rm_tm_finish_pass self))"
proof -
  have "valid_dirs (rm_tm_finish_pass (rm_tm_finish_pass self)) = []"
    by (rule finish_pass_drains) (rule finish_pass_parents_registered)
  then show ?thesis
    by (simp add: rm_tm_finish_loop.simps [of self]
        rm_tm_finish_loop.simps [of "rm_tm_finish_pass self"]
        rm_tm_finish_loop.simps [of "rm_tm_finish_pass (rm_tm_finish_pass self)"])
qed

lemma new_merger_rm_tm_new:
  "rm_tm_new paths fts = Some (new_merger (snd (rm_tm_count_files init_art_tree paths fts)))"
  by (simp add: rm_tm_new_def new_merger_def)

text \<open>
  The counts of the scenarios (but for the cascade, whose counts are the specification's)
  are those that \<^verbatim>\<open>rm_tm_new\<close> computes when the walker yields the files of the
  scenario.
\<close>

lemma scenario_counts_from_walker:
  "rm_tm_new [''/a'']
     \<lparr>fts_open_ok = True,
      fts_entries = [(FTS_D, ''/a''), (FTS_F, ''/a/x''), (FTS_D, ''/a'')],
      fts_close_rc = 0\<rparr> = Some (new_merger single_counts)"
  "rm_tm_new [''/a'', ''/b'']
     \<lparr>fts_open_ok = True,
      fts_entries = [(FTS_D, ''/a''), (FTS_F, ''/a/x''), (FTS_F, ''/a/y''),
                     (FTS_D, ''/b''), (FTS_F, ''/b/x''), (FTS_F, ''/b/y'')],
      fts_close_rc = 0\<rparr> = Some (new_merger twin_counts)"
  "rm_tm_new [''/r'']
     \<lparr>fts_open_ok = True,
      fts_entries = [(FTS_D, ''/r''), (FTS_D, ''/r/a''), (FTS_D, ''/r/a/b''),
                     (FTS_F, ''/r/a/b/g''), (FTS_F, ''/r/a/f''), (FTS_F, ''/r/x'')],
      fts_close_rc = 0\<rparr> = Some (new_merger chain_counts)"
  "rm_tm_new [''/'']
     \<lparr>fts_open_ok = True,
      fts_entries = [(FTS_D, ''/''), (FTS_D, ''/a''), (FTS_F, ''/a/x''),
                     (FTS_D, ''/b''), (FTS_F, ''/b/y'')],
      fts_close_rc = 0\<rparr> = Some (new_merger pair_counts)"
  "rm_tm_new [''/'']
     \<lparr>fts_open_ok = True,
      fts_entries = [(FTS_D, ''/''), (FTS_D, ''/a''), (FTS_D, ''/a/b''), (FTS_F, ''/a/b/f''),
                     (FTS_D, ''/abc''), (FTS_D, ''/abc/d''), (FTS_D, ''/abc/d/e''),
                     (FTS_F, ''/abc/d/e/f'')],
      fts_close_rc = 0\<rparr> = Some (new_merger uneven_counts)"
  "rm_tm_new [''/'']
     \<lparr>fts_open_ok = True,
      fts_entries = [(FTS_D, ''/''), (FTS_D, ''/a''), (FTS_D, ''/a/b''), (FTS_D, ''/a/b/c''),
                     (FTS_F, ''/a/b/c/f''), (FTS_D, ''/ab''), (FTS_D, ''/ab/cd''),
                     (FTS_F, ''/ab/cd/f''), (FTS_D, ''/abcde''), (FTS_F, ''/abcde/f''),
                     (FTS_D, ''/xy''), (FTS_D, ''/xy/zw''), (FTS_F, ''/xy/zw/f'')],
      fts_close_rc = 0\<rparr> = Some (new_merger quad_counts)"
  by code_simp+

subsection \<open>Levelling a directory up\<close>

lemma copy_files_other:
  "q \<noteq> p \<Longrightarrow> get_dir (rm_tm_copy_files p fs self) q = get_dir self q"
  by (induction fs arbitrary: self) (simp_all add: rm_tm_copy_files_def get_dir_set_dir)

lemma copy_files_file_count:
  "file_count (get_dir (rm_tm_copy_files p fs self) q) = file_count (get_dir self q)"
  by (induction fs arbitrary: self)
     (simp_all add: rm_tm_copy_files_def get_dir_set_dir rm_directory_add_def)

text \<open>
  Claim C1 says that, when \<^verbatim>\<open>rm_tm_finish\<close> meets a directory whose parent has no
  aggregate yet, the new parent gets its expected count from the count tree, the child's
  count is left as it is, and the parent is put on \<^verbatim>\<open>new_dirs\<close>. The code does otherwise
  (lines 326 to 336): the parent is registered with the count 0 that
  \<^verbatim>\<open>rm_directory_new\<close> gives it, the count looked up for the parent's path is written
  into the child, and the child is put on \<^verbatim>\<open>new_dirs\<close>.
\<close>

theorem level_up_new_parent:
  assumes child: "registered self directory"
    and no_parent: "\<not> registered self (parent_of self directory)"
  shows "case rm_tm_level_up directory (self, new_dirs) of
           (self', new_dirs') \<Rightarrow>
             registered self' (parent_of self directory) \<and>
             file_count (get_dir self' (parent_of self directory)) = 0 \<and>
             file_count (get_dir self' directory)
               = GPOINTER_TO_UINT (art_search (count_tree self) (parent_of self directory)) \<and>
             new_dirs' = directory # new_dirs"
proof -
  let ?p = "parent_of self directory"
  from child no_parent have ne: "directory \<noteq> ?p" by auto
  from no_parent have none: "art_search (dir_tree self) ?p = None"
    by (simp add: registered_def)
  have reg: "registered (fst (rm_tm_level_up directory (self, new_dirs))) ?p"
    by (simp add: level_up_registered)
  have nd: "snd (rm_tm_level_up directory (self, new_dirs)) = directory # new_dirs"
    using no_parent by (simp add: level_up_new_dirs)
  have fc: "file_count (get_dir (fst (rm_tm_level_up directory (self, new_dirs))) q) =
      (if q = directory then GPOINTER_TO_UINT (art_search (count_tree self) ?p)
       else if q = ?p then 0 else file_count (get_dir self q))" for q
    using none ne
    by (simp add: rm_tm_level_up_def parent_of_def [symmetric] Let_def get_dir_set_dir
        copy_files_file_count count_tree_set_dir rm_directory_new_def)
  show ?thesis
    using reg nd fc [of directory] fc [of ?p] ne by (simp add: case_prod_beta)
qed

text \<open>
  The theorem at the first directory of the cascade scenario: \<^verbatim>\<open>/r/a\<close> had the count 1
  and gets the count 2 of \<^verbatim>\<open>/r\<close>; \<^verbatim>\<open>/r\<close> keeps 0.
\<close>

theorem level_up_new_parent_witness:
  "registered (rm_tm_feed (new_merger cascade_counts) \<lparr>path = ''/r/a/f'', digest = digest1\<rparr>) ''/r/a'' \<and>
   parent_of (rm_tm_feed (new_merger cascade_counts) \<lparr>path = ''/r/a/f'', digest = digest1\<rparr>) ''/r/a'' = ''/r'' \<and>
   file_count (get_dir (rm_tm_feed (new_merger cascade_counts) \<lparr>path = ''/r/a/f'', digest = digest1\<rparr>) ''/r/a'') = 1 \<and>
   (case rm_tm_level_up ''/r/a''
           (rm_tm_feed (new_merger cascade_counts) \<lparr>path = ''/r/a/f'', digest = digest1\<rparr>, []) of
      (self', new_dirs') \<Rightarrow>
         registered self' ''/r'' \<and> file_count (get_dir self' ''/r'') = 0 \<and>
         file_count (get_dir self' ''/r/a'') = 2 \<and> new_dirs' = [''/r/a''])"
proof -
  let ?s = "rm_tm_feed (new_merger cascade_counts) \<lparr>path = ''/r/a/f'', digest = digest1\<rparr>"
  have h1: "registered ?s ''/r/a''" by code_simp
  have p: "parent_of ?s ''/r/a'' = ''/r''" by code_simp
  have h2: "\<not> registered ?s (parent_of ?s ''/r/a'')" by code_simp
  have c: "GPOINTER_TO_UINT (art_search (count_tree ?s) ''/r'') = 2" by code_simp
  have f: "file_count (get_dir ?s ''/r/a'') = 1" by code_simp
  show ?thesis
    using level_up_new_parent [OF h1 h2, of "[]"] h1 p c f by simp
qed

subsection \<open>The cascade scenario\<close>

text \<open>
  Claim C2 says that the cascade scenario emits exactly one class, \<^verbatim>\<open>/r\<close> and \<^verbatim>\<open>/s\<close>
  with the fingerprint \<open>d1 XOR d2\<close>, and that the four children are not emitted. The
  code emits the four children, in two classes, and neither \<^verbatim>\<open>/r\<close> nor \<^verbatim>\<open>/s\<close>,
  in both orders of the two buckets of the result table. Both parents hold the two
  files and the fingerprint 3, but their count is 0.
\<close>

theorem cascade_emits_children:
  "map_option (\<lambda>(self, out). (buckets self, out)) (rm_tm_finish [0, 1] cascade_fed) =
     Some ([(''/r/a'', [''/s/a'', ''/r/a'']), (''/r/b'', [''/s/b'', ''/r/b''])],
           [Line 1 ''/s/a'', Line 1 ''/r/a'', Separator,
            Line 2 ''/s/b'', Line 2 ''/r/b'', Separator]) \<and>
   map_option snd (rm_tm_finish [1, 0] cascade_fed) =
     Some [Line 2 ''/s/b'', Line 2 ''/r/b'', Separator,
           Line 1 ''/s/a'', Line 1 ''/r/a'', Separator] \<and>
   digest_word digest1 XOR digest_word digest2 = 3 \<and>
   map (\<lambda>p. (common_hash (get_dir (rm_tm_finish_loop cascade_fed) p),
              length (known_files (get_dir (rm_tm_finish_loop cascade_fed) p)),
              file_count (get_dir (rm_tm_finish_loop cascade_fed) p))) [''/r'', ''/s'']
     = [(3, 2, 0), (3, 2, 0)]"
  by code_simp

text \<open>
  Claim C3 says that every directory that is emitted holds as many files as its expected
  count, the counter's count for its own path. In the cascade scenario the code emits
  \<^verbatim>\<open>/s/b\<close>, which holds one file, with the expected count 2; the counter has 1 for
  \<^verbatim>\<open>/s/b\<close> (2 is the count of \<^verbatim>\<open>/s\<close>, written into the child by the level-up pass).
  This is so in both orders of the two buckets.
\<close>

theorem cascade_emitted_count_differs:
  "list_all
     (\<lambda>order.
        case rm_tm_finish order cascade_fed of
          None \<Rightarrow> False
        | Some (self, out) \<Rightarrow>
            Line 2 ''/s/b'' \<in> set out \<and>
            length (known_files (get_dir self ''/s/b'')) = 1 \<and>
            file_count (get_dir self ''/s/b'') = 2 \<and>
            GPOINTER_TO_UINT (art_search (count_tree self) ''/s/b'') = 1)
     [[0, 1], [1, 0]]"
  by code_simp

subsection \<open>Passes of the finish operation\<close>

text \<open>
  Claim C9 says that every pass of \<^verbatim>\<open>rm_tm_finish\<close> lowers the greatest depth of
  \<^verbatim>\<open>valid_dirs\<close> by one, a survivor being shallower than the directory it comes from,
  and that the loop makes at most as many passes as the greatest depth. In the code a
  survivor is the child itself: with \<^verbatim>\<open>/a/x\<close> the only file, \<^verbatim>\<open>/a\<close> (of depth 1) is in
  \<^verbatim>\<open>valid_dirs\<close> before and after the first pass, and the loop makes two passes.
\<close>

theorem single_survivor_same_depth:
  "valid_dirs single_fed = [''/a''] \<and>
   valid_dirs (rm_tm_finish_pass single_fed) = [''/a''] \<and>
   valid_dirs (rm_tm_finish_pass (rm_tm_finish_pass single_fed)) = [] \<and>
   rm_tm_finish_loop single_fed = rm_tm_finish_pass (rm_tm_finish_pass single_fed) \<and>
   path_depth ''/a'' = 1"
  by code_simp

text \<open>
  The same with a directory below the first level: \<^verbatim>\<open>/t/a\<close>, of depth 2, is the one
  directory that the first pass keeps, and the greatest depth stays 2.
\<close>

lemma nested_survivor_same_depth:
  "rm_tm_new [''/'']
     \<lparr>fts_open_ok = True,
      fts_entries = [(FTS_D, ''/''), (FTS_D, ''/t''), (FTS_D, ''/t/a''), (FTS_F, ''/t/a/x''),
                     (FTS_D, ''/u''), (FTS_F, ''/u/y'')],
      fts_close_rc = 0\<rparr> = Some (new_merger nested_counts) \<and>
   valid_dirs nested_fed = [''/u'', ''/t/a''] \<and>
   valid_dirs (rm_tm_finish_pass nested_fed) = [''/t/a''] \<and>
   valid_dirs (rm_tm_finish_pass (rm_tm_finish_pass nested_fed)) = [] \<and>
   map path_depth [''/u'', ''/t/a''] = [1, 2]"
  by code_simp

text \<open>
  Claim C10 says that no directory is put twice among the children of one parent. In
  the code the survivor of the first pass is levelled up again by the second, into the
  same parent: with \<^verbatim>\<open>/a/x\<close> the only file, \<^verbatim>\<open>/a\<close> is twice among the children of the
  root when the loop has ended.
\<close>

theorem single_child_twice:
  "children (get_dir (rm_tm_finish_loop single_fed) ''/'') = [''/a'', ''/a'']"
  by code_simp

subsection \<open>Equality of directories\<close>

lemma art_iter_equal:
  "fst (art_iter t rm_directory_equal_iter other) = 0 \<longleftrightarrow> fst ` set t \<subseteq> fst ` set other"
proof (induction t)
  case Nil
  then show ?case by simp
next
  case (Cons e t)
  obtain k v where e: "e = (k, v)" by (cases e)
  have "(art_search other k = None) = (k \<notin> fst ` set other)"
    by (simp add: art_search_def map_of_eq_None_iff)
  with Cons show ?case
    by (auto simp: e rm_directory_equal_iter_def split: option.splits)
qed

lemma hash_trie_add_all:
  "fst ` set (hash_trie (foldl rm_directory_add d fs)) = fst ` set (hash_trie d) \<union> digest ` set fs"
  by (induction fs arbitrary: d) (auto simp: rm_directory_add_def art_insert_def dom_update)

lemma hash_trie_add_all_distinct:
  "distinct (map fst (hash_trie d)) \<Longrightarrow> distinct (map fst (hash_trie (foldl rm_directory_add d fs)))"
  by (induction fs arbitrary: d) (auto simp: rm_directory_add_def art_insert_def distinct_update)
lemma common_hash_add:
  "common_hash (rm_directory_add d f) = common_hash d XOR digest_word (digest f)"
  by (simp add: rm_directory_add_def)

lemma common_hash_add_all:
  "common_hash (foldl rm_directory_add d fs) = common_hash d XOR xor_digests fs"
  by (induction fs arbitrary: d) (simp_all add: xor_digests_def common_hash_add xor.assoc)

lemma art_size_new_add_all:
  "art_size (hash_trie (foldl rm_directory_add (rm_directory_new p) fs)) = card (digest ` set fs)"
proof -
  let ?t = "hash_trie (foldl rm_directory_add (rm_directory_new p) fs)"
  have d: "distinct (map fst ?t)"
    by (rule hash_trie_add_all_distinct) (simp add: rm_directory_new_def init_art_tree_def)
  have "fst ` set ?t = digest ` set fs"
    by (simp add: hash_trie_add_all rm_directory_new_def init_art_tree_def)
  moreover have "card (fst ` set ?t) = length ?t"
    using d by (metis distinct_card length_map set_map)
  ultimately show ?thesis by (simp add: art_size_def)
qed

text \<open>
  Claim C4 says that \<^verbatim>\<open>rm_directory_equal\<close> holds exactly when the fingerprints are
  equal, the digests counted with multiplicity are equally many, and every digest of
  one directory is a digest of the other. The hash trie has one entry per digest,
  however often a file with that digest is added. As amended: two directories, each
  made by \<^verbatim>\<open>rm_directory_new\<close> and filled by \<^verbatim>\<open>rm_directory_add\<close>, are equal exactly
  when the XOR of the first words of their files' digests is the same, they have
  equally many distinct digests, and every digest of the first is a digest of the
  second.
\<close>

theorem rm_directory_equal_digest_sets:
  "rm_directory_equal (foldl rm_directory_add (rm_directory_new p1) fs1)
                      (foldl rm_directory_add (rm_directory_new p2) fs2) \<longleftrightarrow>
     xor_digests fs1 = xor_digests fs2 \<and>
     card (digest ` set fs1) = card (digest ` set fs2) \<and>
     digest ` set fs1 \<subseteq> digest ` set fs2"
proof -
  have new: "hash_trie (rm_directory_new p) = []" "common_hash (rm_directory_new p) = 0" for p
    by (simp_all add: rm_directory_new_def init_art_tree_def)
  show ?thesis
    by (auto simp: rm_directory_equal_def art_size_new_add_all art_iter_equal hash_trie_add_all
        common_hash_add_all new)
qed

text \<open>
  The claim's own example: the digests \<open>d1, d1, d1, d2\<close> against \<open>d1, d2\<close>. The
  multisets differ and the directories are equal.
\<close>

theorem rm_directory_equal_multiset_counterexample:
  "rm_directory_equal
     (foldl rm_directory_add (rm_directory_new ''/a'')
        [\<lparr>path = ''/a/1'', digest = digest1\<rparr>, \<lparr>path = ''/a/2'', digest = digest1\<rparr>,
         \<lparr>path = ''/a/3'', digest = digest1\<rparr>, \<lparr>path = ''/a/4'', digest = digest2\<rparr>])
     (foldl rm_directory_add (rm_directory_new ''/b'')
        [\<lparr>path = ''/b/1'', digest = digest1\<rparr>, \<lparr>path = ''/b/2'', digest = digest2\<rparr>])
   \<and> mset [digest1, digest1, digest1, digest2] \<noteq> mset [digest1, digest2]"
proof -
  have "size (mset [digest1, digest1, digest1, digest2]) \<noteq> size (mset [digest1, digest2])"
    by simp
  then have "mset [digest1, digest1, digest1, digest2] \<noteq> mset [digest1, digest2]"
    by metis
  moreover have "rm_directory_equal
     (foldl rm_directory_add (rm_directory_new ''/a'')
        [\<lparr>path = ''/a/1'', digest = digest1\<rparr>, \<lparr>path = ''/a/2'', digest = digest1\<rparr>,
         \<lparr>path = ''/a/3'', digest = digest1\<rparr>, \<lparr>path = ''/a/4'', digest = digest2\<rparr>])
     (foldl rm_directory_add (rm_directory_new ''/b'')
        [\<lparr>path = ''/b/1'', digest = digest1\<rparr>, \<lparr>path = ''/b/2'', digest = digest2\<rparr>])"
    by code_simp
  ultimately show ?thesis by simp
qed

subsection \<open>The extractor and singleton buckets\<close>

lemma mark_finished_Nil: "rm_tm_mark_finished self [] = Some self"
  by (subst rm_tm_mark_finished.simps) simp

lemma mark_finished_Cons:
  "rm_tm_mark_finished self (directory # rest) =
     rm_tm_mark_finished (set_dir self directory ((get_dir self directory)\<lparr>finished := True\<rparr>))
       (children (get_dir self directory) @ rest)"
  by (subst rm_tm_mark_finished.simps) simp

lemma mark_finished_keeps:
  assumes "rm_tm_mark_finished self todo = Some self'"
  shows "result_table self' = result_table self \<and>
     (\<forall>p. common_hash (get_dir self' p) = common_hash (get_dir self p) \<and>
          dirname (get_dir self' p) = dirname (get_dir self p))"
  using assms
proof (induction rule: rm_tm_mark_finished.raw_induct [rotated 1, consumes 1, case_names call])
  case (call mark self todo self')
  show ?case
  proof (cases todo)
    case Nil
    with call(2) show ?thesis by simp
  next
    case (Cons directory rest)
    let ?s = "set_dir self directory ((get_dir self directory)\<lparr>finished := True\<rparr>)"
    from call(2) Cons have "mark ?s (children (get_dir self directory) @ rest) = Some self'"
      by simp
    from call(1) [OF this] show ?thesis
      by (simp add: get_dir_set_dir result_table_set_dir)
  qed
qed

lemma g_queue_sort_single: "g_queue_sort compare_func [x] = [x]"
  by (simp add: g_queue_sort_def g_list_sort_real.simps)

text \<open>
  Claim C5 says that the extractor skips every bucket that holds exactly one aggregate.
  The loop of \<^verbatim>\<open>rm_tm_extract\<close> has no such test. As amended: the extractor visits
  every bucket; a bucket that holds exactly one aggregate gives, when the aggregate is
  not yet finished and its marking ends, the line of that aggregate (its fingerprint and
  path) and then the separator, and gives the separator alone when the aggregate is
  finished already.
\<close>

theorem singleton_bucket_is_emitted:
  assumes "i < length (result_table self)"
    and "result_table self ! i = (node_hash, key, [directory])"
  shows "rm_tm_extract_buckets [i] (self, out) =
     (if finished (get_dir self directory) then Some (self, out @ [Separator])
      else
        (case rm_tm_mark_finished self [directory] of
           None \<Rightarrow> None
         | Some self' \<Rightarrow>
             Some (self', out @ [Line (common_hash (get_dir self directory))
                                       (dirname (get_dir self directory)), Separator])))"
proof -
  have same:
    "self\<lparr>result_table := (result_table self)[i := (node_hash, key, [directory])]\<rparr> = self"
    using assms by (metis list_update_id RmTreeMerger.surjective RmTreeMerger.update_convs(3))
  show ?thesis
  proof (cases "rm_tm_mark_finished self [directory]")
    case None
    then show ?thesis using assms by (simp add: g_queue_sort_single same)
  next
    case (Some self')
    from mark_finished_keeps [OF this] Some show ?thesis
      using assms by (simp add: g_queue_sort_single same)
  qed
qed

text \<open>
  Two files with different contents under \<^verbatim>\<open>/a\<close> and \<^verbatim>\<open>/b\<close>: the result table has two
  buckets of one directory each, and both lines are printed, in either order of the
  buckets.
\<close>

theorem singleton_bucket_counterexample:
  "buckets pair_done = [(''/a'', [''/a'']), (''/b'', [''/b''])] \<and>
   map_option snd (rm_tm_extract [0, 1] pair_done)
     = Some [Line 1 ''/a'', Separator, Line 2 ''/b'', Separator] \<and>
   map_option snd (rm_tm_extract [1, 0] pair_done)
     = Some [Line 2 ''/b'', Separator, Line 1 ''/a'', Separator]"
  by code_simp

theorem singleton_bucket_is_emitted_witness:
  "0 < length (result_table pair_done) \<and>
   result_table pair_done ! 0 = (2, ''/a'', [''/a'']) \<and>
   finished (get_dir pair_done ''/a'') = False \<and>
   map_option snd (rm_tm_extract_buckets [0] (pair_done, [])) = Some [Line 1 ''/a'', Separator]"
proof -
  have h1: "0 < length (result_table pair_done)" by code_simp
  have h2: "result_table pair_done ! 0 = (2, ''/a'', [''/a''])" by code_simp
  have f: "finished (get_dir pair_done ''/a'') = False" by code_simp
  have m: "rm_tm_mark_finished pair_done [''/a''] \<noteq> None" by code_simp
  have l: "Line (common_hash (get_dir pair_done ''/a'')) (dirname (get_dir pair_done ''/a''))
      = Line 1 ''/a''"
    by code_simp
  show ?thesis
    using singleton_bucket_is_emitted [OF h1 h2, of "[]"] h1 h2 f m l by auto
qed

subsection \<open>Order within a bucket\<close>











text \<open>
  A directory whose contents have changed since it became a key is looked up by the hash
  it had then: \<^verbatim>\<open>/s\<close> is equal to the key \<^verbatim>\<open>/r\<close> and yet gets a bucket of its own.
\<close>

lemma stale_key_not_found:
  "rm_directory_equal (get_dir stale_fed ''/r'') (get_dir stale_fed ''/s'') \<and>
   result_table stale_fed = [(2, ''/r'', [''/r'']), (3, ''/s'', [''/s''])]"
  by code_simp




subsection \<open>Construction\<close>

text \<open>
  Claim C7 says that \<^verbatim>\<open>rm_tm_new\<close> fails, and gives no merger to work with, when the
  list of roots is empty or the walker cannot be opened or closed. \<^verbatim>\<open>rm_tm_new\<close>
  does not read what \<^verbatim>\<open>rm_tm_count_files\<close> returns and has no path on which it fails.
  As amended: in each of the three cases \<^verbatim>\<open>rm_tm_count_files\<close> returns false and
  leaves the count tree as it was, and \<^verbatim>\<open>rm_tm_new\<close> returns a merger all the same,
  with an empty count tree.
\<close>

theorem counter_failure_is_ignored:
  assumes "files = [] \<or> \<not> fts_open_ok fts \<or> fts_close_rc fts \<noteq> 0"
  shows "rm_tm_count_files t files fts = (False, t) \<and>
         rm_tm_new files fts = Some (new_merger init_art_tree)"
  using assms by (auto simp: rm_tm_count_files_def rm_tm_new_def new_merger_def Let_def)

text \<open>
  No roots and a walker that fails: the counter returns false, and the merger that
  \<^verbatim>\<open>rm_tm_new\<close> returns takes a file and finishes.
\<close>

theorem counter_failure_counterexample:
  "fst (rm_tm_count_files init_art_tree [] \<lparr>fts_open_ok = False, fts_entries = [], fts_close_rc = - 1\<rparr>) = False \<and>
   (case rm_tm_new [] \<lparr>fts_open_ok = False, fts_entries = [], fts_close_rc = - 1\<rparr> of
      None \<Rightarrow> False
    | Some self \<Rightarrow>
        map_option snd (rm_tm_finish [] (rm_tm_feed self \<lparr>path = ''/a/x'', digest = digest1\<rparr>)) = Some [])"
  by code_simp

theorem counter_failure_is_ignored_witness:
  "rm_tm_count_files init_art_tree [] \<lparr>fts_open_ok = True, fts_entries = [], fts_close_rc = 0\<rparr>
     = (False, init_art_tree) \<and>
   rm_tm_new [] \<lparr>fts_open_ok = True, fts_entries = [], fts_close_rc = 0\<rparr>
     = Some (new_merger init_art_tree) \<and>
   rm_tm_new [''/r''] \<lparr>fts_open_ok = False, fts_entries = [], fts_close_rc = 0\<rparr>
     = Some (new_merger init_art_tree) \<and>
   rm_tm_new [''/r''] \<lparr>fts_open_ok = True, fts_entries = [(FTS_F, ''/r/x'')], fts_close_rc = - 1\<rparr>
     = Some (new_merger init_art_tree)"
  using counter_failure_is_ignored [of "[]" "\<lparr>fts_open_ok = True, fts_entries = [], fts_close_rc = 0\<rparr>" init_art_tree]
    counter_failure_is_ignored [of "[''/r'']" "\<lparr>fts_open_ok = False, fts_entries = [], fts_close_rc = 0\<rparr>" init_art_tree]
    counter_failure_is_ignored [of "[''/r'']" "\<lparr>fts_open_ok = True, fts_entries = [(FTS_F, ''/r/x'')], fts_close_rc = - 1\<rparr>" init_art_tree]
  by simp

subsection \<open>The order of the files\<close>

lemma feed_count_tree: "count_tree (rm_tm_feed self file) = count_tree self"
  by (simp add: rm_tm_feed_def Let_def rm_tm_insert_dir_def set_dir_def split: option.splits)

lemma feed_dir_tree:
  "art_search (dir_tree (rm_tm_feed self file)) p =
     (if p = g_path_get_dirname (path file) then
        Some (rm_directory_add
          (case art_search (dir_tree self) p of
             Some d \<Rightarrow> d
           | None \<Rightarrow> (rm_directory_new p)\<lparr>file_count := GPOINTER_TO_UINT (art_search (count_tree self) p)\<rparr>)
          file)
      else art_search (dir_tree self) p)"
  by (simp add: rm_tm_feed_def Let_def insert_dir_fields dir_tree_set_dir get_dir_def
      art_search_insert set_dir_def split: option.splits)

lemma feed_dir_summary:
  "dir_summary (rm_tm_feed self file) = feed_summary (count_tree self) file (dir_summary self)"
  by (rule ext)
     (auto simp: dir_summary_def feed_dir_tree feed_summary_def rm_directory_add_def
        rm_directory_new_def init_art_tree_def art_insert_def dom_update xor.commute
        split: option.splits)

lemma feed_all_count_tree: "count_tree (foldl rm_tm_feed self fs) = count_tree self"
  by (induction fs arbitrary: self) (simp_all add: feed_count_tree)

lemma feed_all_dir_summary:
  "dir_summary (foldl rm_tm_feed self fs) = fold (feed_summary (count_tree self)) fs (dir_summary self)"
  by (induction fs arbitrary: self) (simp_all add: feed_dir_summary feed_count_tree)

lemma feed_summary_commute:
  "feed_summary c f (feed_summary c g m) = feed_summary c g (feed_summary c f m)"
  by (rule ext)
     (auto simp: feed_summary_def xor.commute xor.left_commute xor.assoc insert_commute
        split: option.splits)

text \<open>
  Claim C8 says that feeding the same files in another order, and then finishing, gives
  the same classes and the same fingerprint for every aggregate. The level-up pass
  walks \<^verbatim>\<open>valid_dirs\<close>, whose order is that of the first files of the directories, and
  what a directory hands to its parent depends on that order. As amended: when the
  feeding ends, every path has the same aggregate state whatever the order of the
  files: the same fingerprint, number of files, expected count and set of digests, or
  no aggregate in both. Nothing is said of the state after \<^verbatim>\<open>rm_tm_finish\<close>.
\<close>

theorem feed_order_independent:
  assumes "mset fs = mset fs'"
  shows "dir_summary (foldl rm_tm_feed self fs) = dir_summary (foldl rm_tm_feed self fs')"
proof -
  have "fold (feed_summary (count_tree self)) fs = fold (feed_summary (count_tree self)) fs'"
    using assms by (intro fold_multiset_equiv) (auto simp: feed_summary_commute fun_eq_iff)
  then show ?thesis by (simp add: feed_all_dir_summary)
qed

text \<open>
  The three files of the chain, fed in one order and in the reverse order: the result
  tables, what is emitted (in either order of the buckets) and the fingerprint of
  \<^verbatim>\<open>/r\<close> differ.
\<close>

theorem feed_order_counterexample:
  "mset (rev chain_feeds) = mset chain_feeds \<and>
   map_option (\<lambda>(self, out). (buckets self, out, common_hash (get_dir self ''/r'')))
     (rm_tm_finish [0, 1] (foldl rm_tm_feed (new_merger chain_counts) chain_feeds))
     = Some ([(''/r/a/b'', [''/r/a/b'']), (''/r'', [''/r''])],
             [Line 4 ''/r/a/b'', Separator, Line 7 ''/r'', Separator], 7) \<and>
   map_option snd
     (rm_tm_finish [1, 0] (foldl rm_tm_feed (new_merger chain_counts) chain_feeds))
     = Some [Line 7 ''/r'', Separator, Separator] \<and>
   map_option (\<lambda>(self, out). (buckets self, out, common_hash (get_dir self ''/r'')))
     (rm_tm_finish [0] (foldl rm_tm_feed (new_merger chain_counts) (rev chain_feeds)))
     = Some ([(''/r/a/b'', [''/r/a/b''])], [Line 4 ''/r/a/b'', Separator], 3)"
proof -
  have "mset (rev chain_feeds) = mset chain_feeds" by simp
  moreover have
    "map_option (\<lambda>(self, out). (buckets self, out, common_hash (get_dir self ''/r'')))
       (rm_tm_finish [0, 1] (foldl rm_tm_feed (new_merger chain_counts) chain_feeds))
       = Some ([(''/r/a/b'', [''/r/a/b'']), (''/r'', [''/r''])],
               [Line 4 ''/r/a/b'', Separator, Line 7 ''/r'', Separator], 7)"
    by code_simp
  moreover have
    "map_option snd
       (rm_tm_finish [1, 0] (foldl rm_tm_feed (new_merger chain_counts) chain_feeds))
       = Some [Line 7 ''/r'', Separator, Separator]"
    by code_simp
  moreover have
    "map_option (\<lambda>(self, out). (buckets self, out, common_hash (get_dir self ''/r'')))
       (rm_tm_finish [0] (foldl rm_tm_feed (new_merger chain_counts) (rev chain_feeds)))
       = Some ([(''/r/a/b'', [''/r/a/b''])], [Line 4 ''/r/a/b'', Separator], 3)"
    by code_simp
  ultimately show ?thesis by simp
qed

theorem feed_order_independent_witness:
  "mset (rev cascade_feeds) = mset cascade_feeds \<and>
   dir_summary (foldl rm_tm_feed (new_merger cascade_counts) (rev cascade_feeds)) ''/r/a''
     = Some (1, 1, 1, {digest1}) \<and>
   dir_summary (foldl rm_tm_feed (new_merger cascade_counts) cascade_feeds) ''/r/a''
     = Some (1, 1, 1, {digest1})"
proof -
  have h: "mset (rev cascade_feeds) = mset cascade_feeds" by simp
  have v: "dir_summary (foldl rm_tm_feed (new_merger cascade_counts) cascade_feeds) ''/r/a''
     = Some (1, 1, 1, {digest1})"
    by code_simp
  show ?thesis
    using feed_order_independent [OF h, of "new_merger cascade_counts"] h v by simp
qed

subsection \<open>The pointers of the merger stay valid\<close>

text \<open>
  From \<^verbatim>\<open>rm_tm_new\<close> on, through every feed and every pass of \<^verbatim>\<open>rm_tm_finish\<close>, the
  pointers the merger holds point to registered directories.
\<close>

lemma set_update_subset: "set (AList.update k v al) \<subseteq> insert (k, v) (set al)"
  by (induction al) auto

lemma pv_get_dir:
  assumes "pointers_valid self"
  shows "dirname (get_dir self p) = p" and "list_all (registered self) (children (get_dir self p))"
proof -
  show "dirname (get_dir self p) = p"
  proof (cases "art_search (dir_tree self) p")
    case None
    then show ?thesis by (rule dirname_get_dir_absent)
  next
    case (Some d)
    then have "(p, d) \<in> set (dir_tree self)"
      by (simp add: art_search_def map_of_SomeD)
    with assms Some show ?thesis
      by (auto simp: pointers_valid_def list_all_iff get_dir_def)
  qed
  show "list_all (registered self) (children (get_dir self p))"
  proof (cases "art_search (dir_tree self) p")
    case None
    then show ?thesis by (simp add: get_dir_def rm_directory_new_def)
  next
    case (Some d)
    then have "(p, d) \<in> set (dir_tree self)"
      by (simp add: art_search_def map_of_SomeD)
    with assms Some show ?thesis
      by (auto simp: pointers_valid_def list_all_iff get_dir_def)
  qed
qed

lemma pv_set_dir:
  assumes "pointers_valid self" and "dirname d = p"
    and "list_all (\<lambda>c. c = p \<or> registered self c) (children d)"
  shows "pointers_valid (set_dir self p d)"
proof -
  have reg: "registered (set_dir self p d) q = (q = p \<or> registered self q)" for q
    by (rule registered_set_dir)
  have ent: "set (dir_tree (set_dir self p d)) \<subseteq> insert (p, d) (set (dir_tree self))"
    by (simp add: set_dir_def art_insert_def set_update_subset)
  have "dirname b = a \<and> (\<forall>c \<in> set (children b). c = p \<or> registered self c)"
    if "(a, b) \<in> set (dir_tree (set_dir self p d))" for a b
  proof (cases "(a, b) = (p, d)")
    case True
    with assms(2,3) show ?thesis by (simp add: list_all_iff)
  next
    case False
    with that ent have "(a, b) \<in> set (dir_tree self)" by blast
    with assms(1) show ?thesis by (auto simp: pointers_valid_def list_all_iff)
  qed
  moreover have "list_all (registered self) (valid_dirs self)"
    "list_all (\<lambda>(node_hash, key, dir_queue).
                 registered self key \<and> list_all (registered self) dir_queue)
       (result_table self)"
    using assms(1) by (simp_all add: pointers_valid_def)
  ultimately show ?thesis
    by (auto simp: pointers_valid_def list_all_iff reg valid_dirs_set_dir result_table_set_dir)
qed

lemma registered_upd:
  "registered (self\<lparr>valid_dirs := v\<rparr>) = registered self"
  "registered (self\<lparr>result_table := t\<rparr>) = registered self"
  by (simp_all add: registered_def fun_eq_iff)

lemma pv_push_valid:
  "pointers_valid self \<Longrightarrow> registered self d \<Longrightarrow>
     pointers_valid (self\<lparr>valid_dirs := d # valid_dirs self\<rparr>)"
  by (simp add: pointers_valid_def registered_upd)

lemma push_bucket_all:
  "list_all (\<lambda>(h, key, q). P key \<and> list_all P q) tbl \<Longrightarrow> P d \<Longrightarrow>
     list_all (\<lambda>(h, key, q). P key \<and> list_all P q) (push_bucket m hv d tbl)"
  by (induction m hv d tbl rule: push_bucket.induct) auto

lemma pv_insert_dir:
  "pointers_valid self \<Longrightarrow> registered self d \<Longrightarrow> pointers_valid (rm_tm_insert_dir self d)"
  by (simp add: pointers_valid_def rm_tm_insert_dir_def registered_upd push_bucket_all)

lemma pv_add:
  assumes "pointers_valid self"
  shows "pointers_valid (set_dir self p (rm_directory_add (get_dir self p) file))"
proof (rule pv_set_dir [OF assms])
  show "dirname (rm_directory_add (get_dir self p) file) = p"
    using pv_get_dir(1) [OF assms, of p] by (simp add: rm_directory_add_def)
  show "list_all (\<lambda>c. c = p \<or> registered self c) (children (rm_directory_add (get_dir self p) file))"
    using pv_get_dir(2) [OF assms, of p] by (simp add: rm_directory_add_def list_all_iff)
qed

lemma registered_feed:
  "registered (rm_tm_feed self file) q = (q = g_path_get_dirname (path file) \<or> registered self q)"
  by (auto simp: registered_def feed_dir_tree)

lemma pv_feed:
  assumes "pointers_valid self"
  shows "pointers_valid (rm_tm_feed self file)"
proof -
  let ?dir = "g_path_get_dirname (path file)"
  let ?new = "(rm_directory_new ?dir)\<lparr>file_count := GPOINTER_TO_UINT (art_search (count_tree self) ?dir)\<rparr>"
  let ?s1 = "case art_search (dir_tree self) ?dir of
               Some d \<Rightarrow> self
             | None \<Rightarrow> self\<lparr>dir_tree := art_insert (dir_tree self) ?dir ?new,
                            valid_dirs := ?dir # valid_dirs self\<rparr>"
  have s1: "pointers_valid ?s1 \<and> registered ?s1 ?dir"
  proof (cases "art_search (dir_tree self) ?dir")
    case None
    have "pointers_valid (set_dir self ?dir ?new)"
      by (rule pv_set_dir [OF assms]) (simp_all add: rm_directory_new_def)
    then have "pointers_valid ((set_dir self ?dir ?new)\<lparr>valid_dirs := ?dir # valid_dirs (set_dir self ?dir ?new)\<rparr>)"
      by (rule pv_push_valid) (simp add: registered_set_dir)
    moreover have "(set_dir self ?dir ?new)\<lparr>valid_dirs := ?dir # valid_dirs (set_dir self ?dir ?new)\<rparr>
        = self\<lparr>dir_tree := art_insert (dir_tree self) ?dir ?new, valid_dirs := ?dir # valid_dirs self\<rparr>"
      by (simp add: set_dir_def)
    ultimately show ?thesis using None by (simp add: registered_def art_search_insert)
  next
    case (Some d)
    with assms show ?thesis by (simp add: registered_def)
  qed
  let ?s2 = "set_dir ?s1 ?dir (rm_directory_add (get_dir ?s1 ?dir) file)"
  have s2: "pointers_valid ?s2" using s1 by (intro pv_add) simp
  have r2: "registered ?s2 ?dir" by (simp add: registered_set_dir)
  have "rm_tm_feed self file =
      (if length (known_files (get_dir ?s2 ?dir)) = file_count (get_dir ?s2 ?dir)
       then rm_tm_insert_dir ?s2 ?dir else ?s2)"
    by (simp add: rm_tm_feed_def Let_def)
  then show ?thesis using s2 r2 by (simp add: pv_insert_dir)
qed

lemma pv_copy_files:
  "pointers_valid self \<Longrightarrow> pointers_valid (rm_tm_copy_files p fs self)"
  by (induction fs arbitrary: self) (simp_all add: rm_tm_copy_files_def pv_add)

lemma pv_level_up:
  assumes pv: "pointers_valid self" and d: "registered self directory"
    and nd: "list_all (registered self) new_dirs"
  shows "pointers_valid (fst (rm_tm_level_up directory (self, new_dirs))) \<and>
         list_all (registered (fst (rm_tm_level_up directory (self, new_dirs))))
           (snd (rm_tm_level_up directory (self, new_dirs)))"
proof -
  let ?p = "parent_of self directory"
  let ?r = "rm_tm_level_up directory (self, new_dirs)"
  have mono: "registered self q \<Longrightarrow> registered (fst ?r) q" for q
    by (rule level_up_reg)
  have nd': "list_all (registered (fst ?r)) (snd ?r)"
    using nd d mono by (auto simp: level_up_new_dirs list_all_iff)
  define s1 where "s1 = (case art_search (dir_tree self) ?p of
       Some parent \<Rightarrow> self
     | None \<Rightarrow> set_dir (set_dir self ?p (rm_directory_new ?p)) directory
         ((get_dir (set_dir self ?p (rm_directory_new ?p)) directory)
            \<lparr>file_count := GPOINTER_TO_UINT
               (art_search (count_tree (set_dir self ?p (rm_directory_new ?p))) ?p)\<rparr>))"
  have s1: "pointers_valid s1 \<and> registered s1 directory"
  proof (cases "art_search (dir_tree self) ?p")
    case None
    let ?a = "set_dir self ?p (rm_directory_new ?p)"
    have a: "pointers_valid ?a"
      by (rule pv_set_dir [OF pv]) (simp_all add: rm_directory_new_def)
    have "pointers_valid (set_dir ?a directory ((get_dir ?a directory)\<lparr>file_count :=
        GPOINTER_TO_UINT (art_search (count_tree ?a) ?p)\<rparr>))"
      using pv_get_dir [OF a, of directory]
      by (intro pv_set_dir [OF a]) (simp_all add: list_all_iff)
    with None show ?thesis by (simp add: s1_def registered_set_dir)
  next
    case (Some x)
    with pv d show ?thesis by (simp add: s1_def)
  qed
  define s2 where "s2 = rm_tm_copy_files ?p (known_files (get_dir s1 directory)) s1"
  have s2: "pointers_valid s2" and r2: "registered s2 directory"
    using s1 by (simp_all add: s2_def pv_copy_files copy_files_reg)
  have eq: "fst ?r = set_dir s2 ?p ((get_dir s2 ?p)\<lparr>children := directory # children (get_dir s2 ?p)\<rparr>)"
    by (cases "art_search (dir_tree self) ?p")
       (simp_all add: rm_tm_level_up_def Let_def parent_of_def s1_def s2_def)
  have "pointers_valid (fst ?r)"
    unfolding eq using pv_get_dir [OF s2, of ?p] r2
    by (intro pv_set_dir [OF s2]) (simp_all add: list_all_iff)
  with nd' show ?thesis by simp
qed

lemma pv_fold_level_up:
  assumes "pointers_valid self" and "list_all (registered self) ds"
    and "list_all (registered self) nd"
  shows "pointers_valid (fst (fold rm_tm_level_up ds (self, nd))) \<and>
         list_all (registered (fst (fold rm_tm_level_up ds (self, nd))))
           (snd (fold rm_tm_level_up ds (self, nd)))"
  using assms
proof (induction ds arbitrary: self nd)
  case Nil
  then show ?case by simp
next
  case (Cons d ds)
  obtain s1 n1 where step: "rm_tm_level_up d (self, nd) = (s1, n1)"
    by (cases "rm_tm_level_up d (self, nd)")
  have mono: "registered self q \<Longrightarrow> registered s1 q" for q
    using level_up_reg [of self q d nd] step by simp
  from Cons.prems have "registered self d" by simp
  from pv_level_up [OF Cons.prems(1) this Cons.prems(3)] step
  have "pointers_valid s1" "list_all (registered s1) n1" by simp_all
  moreover from Cons.prems(2) mono have "list_all (registered s1) ds"
    by (auto simp: list_all_iff)
  ultimately show ?case using Cons.IH [of s1 n1] step by simp
qed

lemma pv_keep:
  "pointers_valid self \<Longrightarrow> registered self d \<Longrightarrow> pointers_valid (rm_tm_keep d self)"
  by (simp add: rm_tm_keep_def pv_insert_dir pv_push_valid registered_upd)

lemma pv_fold_keep:
  "pointers_valid self \<Longrightarrow> list_all (registered self) nd \<Longrightarrow>
     pointers_valid (fold rm_tm_keep nd self)"
proof (induction nd arbitrary: self)
  case Nil
  then show ?case by simp
next
  case (Cons d nd)
  have "registered (rm_tm_keep d self) = registered self"
    by (rule registered_cong) (simp add: keep_fields)
  with Cons show ?case by (simp add: pv_keep)
qed

lemma pv_finish_pass:
  assumes "pointers_valid self"
  shows "pointers_valid (rm_tm_finish_pass self)"
proof -
  obtain s1 nd where f: "fold rm_tm_level_up (valid_dirs self) (self, []) = (s1, nd)"
    by (cases "fold rm_tm_level_up (valid_dirs self) (self, [])")
  from assms have "list_all (registered self) (valid_dirs self)"
    by (simp add: pointers_valid_def)
  from pv_fold_level_up [OF assms this, of "[]"] f
  have "pointers_valid s1" "list_all (registered s1) nd" by simp_all
  then have "pointers_valid (s1\<lparr>valid_dirs := []\<rparr>)"
    "list_all (registered (s1\<lparr>valid_dirs := []\<rparr>)) nd"
    by (simp_all add: pointers_valid_def registered_upd)
  then have "pointers_valid (fold rm_tm_keep nd (s1\<lparr>valid_dirs := []\<rparr>))"
    by (rule pv_fold_keep)
  then show ?thesis by (simp add: rm_tm_finish_pass_def f)
qed

lemma pointers_valid_reachable:
  "pointers_valid (rm_tm_finish_loop (foldl rm_tm_feed (new_merger counts) files))"
proof -
  have "pointers_valid (new_merger counts)"
    by (simp add: pointers_valid_def new_merger_def init_art_tree_def)
  moreover have "pointers_valid s \<Longrightarrow> pointers_valid (foldl rm_tm_feed s fs)" for s fs
    by (induction fs arbitrary: s) (simp_all add: pv_feed)
  ultimately have "pointers_valid (foldl rm_tm_feed (new_merger counts) files)" by blast
  then show ?thesis by (simp add: finish_loop_two_passes pv_finish_pass)
qed

end
